theory Spec2Isabelle
  imports Main
begin

section \<open>C++ values used by the editor\<close>

text \<open>
  The editor (src/editor.hpp, src/editor.cpp) computes with \<open>int\<close> (32 bits, signed) and
  with \<open>size_t\<close> (64 bits, unsigned). An \<open>int\<close> is modelled by its mathematical value,
  a \<open>size_t\<close> by a natural number; the conversions the source performs implicitly are
  written out. Signed overflow and invalid iterators are undefined behaviour in C++;
  the checked \<open>std::string\<close> members throw \<open>std::out_of_range\<close>. Both are results of
  the model.
\<close>

datatype error = OutOfRange | UndefinedBehaviour

definition INT_MIN :: int where
  "INT_MIN = - 2147483648"

definition INT_MAX :: int where
  "INT_MAX = 2147483647"

definition is_int :: "int \<Rightarrow> bool" where
  "is_int i = (INT_MIN \<le> i \<and> i \<le> INT_MAX)"

definition PTRDIFF_MAX :: nat where
  "PTRDIFF_MAX = 9223372036854775807"

text \<open>\<open>int\<close> to \<open>size_t\<close>, as in \<open>row >= lines.size()\<close>: the value modulo \<open>2^64\<close>.\<close>

definition size_t_of_int :: "int \<Rightarrow> nat" where
  "size_t_of_int i = nat (i mod 18446744073709551616)"

text \<open>\<open>size_t\<close> to \<open>int\<close>, as in \<open>selectedIndex = files.size() - 1\<close>: modulo \<open>2^32\<close>, signed.\<close>

definition int_of_size_t :: "nat \<Rightarrow> int" where
  "int_of_size_t n = (int n + 2147483648) mod 4294967296 - 2147483648"

text \<open>Subtraction of two \<open>size_t\<close> values wraps around.\<close>

definition size_t_sub :: "nat \<Rightarrow> nat \<Rightarrow> nat" where
  "size_t_sub a b = nat ((int a - int b) mod 18446744073709551616)"

text \<open>Addition of two \<open>int\<close> values; overflow is undefined.\<close>

definition int_add :: "int \<Rightarrow> int \<Rightarrow> error + int" where
  "int_add a b = (if is_int (a + b) then Inr (a + b) else Inl UndefinedBehaviour)"

text \<open>Sequencing of computations that may fail: the first failure ends the computation.\<close>

definition bind_err :: "error + 'a \<Rightarrow> ('a \<Rightarrow> error + 'b) \<Rightarrow> error + 'b" where
  "bind_err m f = (case m of Inl e \<Rightarrow> Inl e | Inr x \<Rightarrow> f x)"

subsection \<open>\<open>std::string\<close> members\<close>

text \<open>\<open>s.insert(pos, 1, c)\<close>: throws when \<open>pos > s.size()\<close>.\<close>

definition string_insert :: "string \<Rightarrow> nat \<Rightarrow> char \<Rightarrow> error + string" where
  "string_insert s pos c =
     (if length s < pos then Inl OutOfRange else Inr (take pos s @ c # drop pos s))"

text \<open>\<open>s.erase(pos, n)\<close>: throws when \<open>pos > s.size()\<close>, removes at most \<open>n\<close> characters.\<close>

definition string_erase :: "string \<Rightarrow> nat \<Rightarrow> nat \<Rightarrow> error + string" where
  "string_erase s pos n =
     (if length s < pos then Inl OutOfRange else Inr (take pos s @ drop (pos + n) s))"

text \<open>\<open>s.substr(pos, n)\<close> and \<open>s.substr(pos)\<close>: throw when \<open>pos > s.size()\<close>.\<close>

definition string_substr :: "string \<Rightarrow> nat \<Rightarrow> nat \<Rightarrow> error + string" where
  "string_substr s pos n =
     (if length s < pos then Inl OutOfRange else Inr (take n (drop pos s)))"

definition string_substr_from :: "string \<Rightarrow> nat \<Rightarrow> error + string" where
  "string_substr_from s pos =
     (if length s < pos then Inl OutOfRange else Inr (drop pos s))"

section \<open>Buffer\<close>

record buffer =
  lines :: "string list"
  filepath :: string
  modified :: bool

text \<open>\<open>Buffer() { lines.push_back(""); }\<close>\<close>

definition Buffer_default :: buffer where
  "Buffer_default = \<lparr>lines = [''''], filepath = '''', modified = False\<rparr>"

text \<open>
  \<open>Buffer::insertChar\<close>. The guard compares \<open>row\<close> as a \<open>size_t\<close>, so a negative row
  is out of range too; \<open>col\<close> is not checked here but by \<open>std::string::insert\<close>.
\<close>

definition Buffer_insertChar :: "buffer \<Rightarrow> int \<Rightarrow> int \<Rightarrow> char \<Rightarrow> error + buffer" where
  "Buffer_insertChar b row col c =
     (if length (lines b) \<le> size_t_of_int row then Inr b
      else bind_err (string_insert (lines b ! size_t_of_int row) (size_t_of_int col) c)
        (\<lambda>s. Inr (b\<lparr>lines := (lines b)[size_t_of_int row := s], modified := True\<rparr>)))"

text \<open>\<open>Buffer::deleteChar\<close>: erases the character before \<open>col\<close>; \<open>col - 1\<close> is int arithmetic.\<close>

definition Buffer_deleteChar :: "buffer \<Rightarrow> int \<Rightarrow> int \<Rightarrow> error + buffer" where
  "Buffer_deleteChar b row col =
     (if length (lines b) \<le> size_t_of_int row \<or> col = 0 then Inr b
      else bind_err (int_add col (- 1)) (\<lambda>pos.
        bind_err (string_erase (lines b ! size_t_of_int row) (size_t_of_int pos) 1)
          (\<lambda>s. Inr (b\<lparr>lines := (lines b)[size_t_of_int row := s], modified := True\<rparr>))))"

text \<open>
  \<open>Buffer::insertLine\<close>: the guard lets \<open>row == lines.size()\<close> through; the iterator
  \<open>lines.begin() + row + 1\<close> is valid only up to \<open>lines.end()\<close>.
\<close>

definition Buffer_insertLine :: "buffer \<Rightarrow> int \<Rightarrow> error + buffer" where
  "Buffer_insertLine b row =
     (if length (lines b) < size_t_of_int row then Inr b
      else if 0 \<le> row + 1 \<and> row + 1 \<le> int (length (lines b))
        then Inr (b\<lparr>lines := take (nat (row + 1)) (lines b) @ '''' # drop (nat (row + 1)) (lines b),
                     modified := True\<rparr>)
        else Inl UndefinedBehaviour)"

text \<open>
  \<open>Buffer::deleteLine\<close>: only the line count is checked; \<open>lines.erase(lines.begin() + row)\<close>
  needs an iterator to an element.
\<close>

definition Buffer_deleteLine :: "buffer \<Rightarrow> int \<Rightarrow> error + buffer" where
  "Buffer_deleteLine b row =
     (if length (lines b) \<le> 1 then Inr b
      else if 0 \<le> row \<and> row < int (length (lines b))
        then Inr (b\<lparr>lines := take (nat row) (lines b) @ drop (Suc (nat row)) (lines b),
                     modified := True\<rparr>)
        else Inl UndefinedBehaviour)"

definition Buffer_getLine :: "buffer \<Rightarrow> int \<Rightarrow> string" where
  "Buffer_getLine b row =
     (if length (lines b) \<le> size_t_of_int row then '''' else lines b ! size_t_of_int row)"

definition Buffer_getLineCount :: "buffer \<Rightarrow> int" where
  "Buffer_getLineCount b = int_of_size_t (length (lines b))"

subsection \<open>Files\<close>

text \<open>
  The file system is outside the program. \<open>file_data w p\<close> is the content of the file
  that \<open>std::ifstream(p)\<close> opens, \<open>None\<close> when it cannot be opened; \<open>can_write w p\<close>
  says whether \<open>std::ofstream(p)\<close> can be opened, which creates or truncates the file;
  \<open>dir_entries w p\<close> are the file names that an iteration over the directory \<open>p\<close>
  yields before it ends or throws.
\<close>

record world =
  file_data :: "string \<Rightarrow> string option"
  can_write :: "string \<Rightarrow> bool"
  dir_entries :: "string \<Rightarrow> string list"

definition newline :: char where
  "newline = CHR 0x0A"

text \<open>The data model has lines without a newline character.\<close>

definition newline_free :: "buffer \<Rightarrow> bool" where
  "newline_free b = (\<forall>l \<in> set (lines b). newline \<notin> set l)"

text \<open>
  \<open>Buffer::save\<close>: every line followed by a newline; the flag is cleared whether or not
  the stream could be opened.
\<close>

definition file_text :: "string list \<Rightarrow> string" where
  "file_text ls = concat (map (\<lambda>line. line @ [newline]) ls)"

definition Buffer_save :: "world \<Rightarrow> buffer \<Rightarrow> buffer \<times> world" where
  "Buffer_save w b =
     (b\<lparr>modified := False\<rparr>,
      if can_write w (filepath b)
      then w\<lparr>file_data := (file_data w)(filepath b := Some (file_text (lines b)))\<rparr>
      else w)"

text \<open>
  \<open>std::getline(file, line)\<close> on the rest of the stream: fails when nothing is left,
  otherwise yields the characters before the next newline and consumes that newline.
\<close>

definition getline :: "string \<Rightarrow> (string \<times> string) option" where
  "getline s =
     (if s = [] then None
      else Some (takeWhile (\<lambda>c. c \<noteq> newline) s, drop 1 (dropWhile (\<lambda>c. c \<noteq> newline) s)))"

lemma getline_shorter: "getline s = Some (line, rest) \<Longrightarrow> length rest < length s"
proof -
  assume g: "getline s = Some (line, rest)"
  then have ne: "s \<noteq> []" and r: "rest = drop 1 (dropWhile (\<lambda>c. c \<noteq> newline) s)"
    by (auto simp: getline_def split: if_splits)
  have "length (dropWhile (\<lambda>c. c \<noteq> newline) s) \<le> length s"
    by (rule length_dropWhile_le)
  with ne r show ?thesis
    by (cases "dropWhile (\<lambda>c. c \<noteq> newline) s") auto
qed

text \<open>\<open>while (std::getline(file, line)) lines.push_back(line);\<close>\<close>

function read_lines :: "string \<Rightarrow> string list \<Rightarrow> string list" where
  "read_lines s acc =
     (case getline s of
        None \<Rightarrow> acc
      | Some (line, rest) \<Rightarrow> read_lines rest (acc @ [line]))"
  by pat_completeness auto
termination
  by (relation "measure (\<lambda>(s, acc). length s)") (auto dest: getline_shorter)

declare read_lines.simps [simp del]

text \<open>
  \<open>Buffer::load\<close>: a file that cannot be opened, or that holds no line, gives one empty
  line. The modified flag is not touched.
\<close>

definition Buffer_load :: "world \<Rightarrow> buffer \<Rightarrow> buffer" where
  "Buffer_load w b =
     (case file_data w (filepath b) of
        None \<Rightarrow> b\<lparr>lines := ['''']\<rparr>
      | Some content \<Rightarrow>
          (let ls = read_lines content [] in
           if ls = [] then b\<lparr>lines := ['''']\<rparr> else b\<lparr>lines := ls\<rparr>))"

text \<open>\<open>Buffer::Buffer(const std::string& path) : filepath(path) { load(); }\<close>\<close>

definition Buffer_path :: "world \<Rightarrow> string \<Rightarrow> buffer" where
  "Buffer_path w path = Buffer_load w \<lparr>lines = [], filepath = path, modified = False\<rparr>"

text \<open>Sequences of line operations on one buffer, ended by the first failure.\<close>

datatype buffer_op = InsertLine int | DeleteLine int | Load

fun apply_buffer_op :: "world \<Rightarrow> buffer \<Rightarrow> buffer_op \<Rightarrow> error + buffer" where
  "apply_buffer_op w b (InsertLine row) = Buffer_insertLine b row"
| "apply_buffer_op w b (DeleteLine row) = Buffer_deleteLine b row"
| "apply_buffer_op w b Load = Inr (Buffer_load w b)"

fun run_buffer_ops :: "world \<Rightarrow> buffer \<Rightarrow> buffer_op list \<Rightarrow> error + buffer" where
  "run_buffer_ops w b [] = Inr b"
| "run_buffer_ops w b (x # xs) = bind_err (apply_buffer_op w b x) (\<lambda>b'. run_buffer_ops w b' xs)"

section \<open>SyntaxHighlighter\<close>

text \<open>
  \<open>std::regex\<close> belongs to the standard library, so a compiled pattern is a parameter:
  the function that \<open>std::regex_search(first, last, match, pattern)\<close> computes on the
  characters from \<open>first\<close> to \<open>last\<close>, yielding \<open>match.position()\<close> and
  \<open>match.length()\<close> of the first match, or \<open>None\<close> when the search returns false.
\<close>

type_synonym regex = "string \<Rightarrow> (nat \<times> nat) option"

record HighlightRule =
  pattern :: regex
  color :: string

definition reset_escape :: string where
  "reset_escape = CHR 0x1B # ''[0m''"

definition addRule :: "HighlightRule list \<Rightarrow> regex \<Rightarrow> string \<Rightarrow> HighlightRule list" where
  "addRule rules re col = rules @ [\<lparr>pattern = re, color = col\<rparr>]"

text \<open>
  The inner loop of \<open>SyntaxHighlighter::highlight\<close>: \<open>rest\<close> is the text from
  \<open>searchStart\<close> to \<open>temp.cend()\<close>. The loop need not end, so its value is an
  option: \<open>None\<close> stands for a loop that never leaves (\<open>result\<close> then grows until
  memory is exhausted).
\<close>

partial_function (option) highlight_loop :: "HighlightRule \<Rightarrow> string \<Rightarrow> string \<Rightarrow> string option" where
  "highlight_loop rule rest result =
     (case pattern rule rest of
        None \<Rightarrow> Some (result @ rest)
      | Some (pos, len) \<Rightarrow>
          highlight_loop rule (drop (pos + len) rest)
            (result @ take pos rest @ color rule @ take len (drop pos rest) @ reset_escape))"

text \<open>The outer loop over the rules: \<open>temp = result; result.clear(); ...\<close>\<close>

fun highlight_rules :: "HighlightRule list \<Rightarrow> string \<Rightarrow> string option" where
  "highlight_rules [] result = Some result"
| "highlight_rules (rule # rules) result =
     (case highlight_loop rule result [] of
        None \<Rightarrow> None
      | Some result' \<Rightarrow> highlight_rules rules result')"

definition highlight :: "HighlightRule list \<Rightarrow> string \<Rightarrow> string option" where
  "highlight rules line = highlight_rules rules line"

subsection \<open>The highlighter as the specification words it\<close>

text \<open>
  One pass cuts the string, from left to right, into the matches of the pattern and the
  spans between them, wraps every match and concatenates the pieces in their order; the
  passes are folded over the rules in registration order. Where a match is empty the
  scan keeps it and steps over one character, as iterating over all matches of a
  pattern commonly does.
\<close>

datatype piece = Unmatched string | Matched string

function spec_scan :: "regex \<Rightarrow> string \<Rightarrow> piece list" where
  "spec_scan re s =
     (case re s of
        None \<Rightarrow> [Unmatched s]
      | Some (pos, len) \<Rightarrow>
          if 0 < len \<and> pos + len \<le> length s
          then Unmatched (take pos s) # Matched (take len (drop pos s)) # spec_scan re (drop (pos + len) s)
          else if len = 0 \<and> pos < length s
          then Unmatched (take pos s) # Matched [] # Unmatched [s ! pos] # spec_scan re (drop (Suc pos) s)
          else [Unmatched (take pos s), Matched (drop pos s)])"
  by pat_completeness auto
termination
  by (relation "measure (\<lambda>(re, s). length s)") auto

declare spec_scan.simps [simp del]

fun spec_wrap :: "string \<Rightarrow> piece \<Rightarrow> string" where
  "spec_wrap col (Unmatched s) = s"
| "spec_wrap col (Matched s) = col @ s @ reset_escape"

definition spec_pass :: "HighlightRule \<Rightarrow> string \<Rightarrow> string" where
  "spec_pass rule s = concat (map (spec_wrap (color rule)) (spec_scan (pattern rule) s))"

definition spec_highlight :: "HighlightRule list \<Rightarrow> string \<Rightarrow> string" where
  "spec_highlight rules line = fold spec_pass rules line"

text \<open>A pattern whose matches are never empty and lie inside the searched text.\<close>

definition nonempty_matches :: "regex \<Rightarrow> bool" where
  "nonempty_matches re = (\<forall>s pos len. re s = Some (pos, len) \<longrightarrow> 0 < len \<and> pos + len \<le> length s)"

text \<open>
  Two patterns in this representation: a pattern without special characters, which
  matches the first occurrence of its text, and with it the empty pattern, which
  matches the empty string at the start of any text.
\<close>

fun find_literal :: "string \<Rightarrow> string \<Rightarrow> nat option" where
  "find_literal lit [] = (if lit = [] then Some 0 else None)"
| "find_literal lit (c # s) =
     (if take (length lit) (c # s) = lit then Some 0
      else map_option Suc (find_literal lit s))"

definition literal_regex :: "string \<Rightarrow> regex" where
  "literal_regex lit s = map_option (\<lambda>pos. (pos, length lit)) (find_literal lit s)"

section \<open>PluginManager\<close>

text \<open>
  The plugins are objects with virtual hooks, written outside the editor. The model
  keeps the names under which plugins are registered, in the order in which the
  \<open>std::map\<close> iterates, and the hooks called so far.
\<close>

datatype hook = OnLoad | OnKeyPress int | OnBufferChange

record PluginManager =
  plugins :: "string list"
  hook_calls :: "(string \<times> hook) list"

definition notifyKeyPress :: "PluginManager \<Rightarrow> int \<Rightarrow> PluginManager" where
  "notifyKeyPress pm key =
     pm\<lparr>hook_calls := hook_calls pm @ map (\<lambda>name. (name, OnKeyPress key)) (plugins pm)\<rparr>"

definition notifyBufferChange :: "PluginManager \<Rightarrow> PluginManager" where
  "notifyBufferChange pm =
     pm\<lparr>hook_calls := hook_calls pm @ map (\<lambda>name. (name, OnBufferChange)) (plugins pm)\<rparr>"

section \<open>FileExplorer\<close>

record FileExplorer =
  files :: "string list"
  selectedIndex :: int

text \<open>
  \<open>FileExplorer::scanDirectory\<close>: the list is cleared and filled with the names found;
  an exception of the iteration is swallowed.
\<close>

definition scanDirectory :: "world \<Rightarrow> FileExplorer \<Rightarrow> string \<Rightarrow> FileExplorer" where
  "scanDirectory w fe path = fe\<lparr>files := dir_entries w path\<rparr>"

text \<open>
  \<open>FileExplorer::moveSelection\<close>. The second comparison is between \<open>size_t\<close> values,
  and \<open>files.size() - 1\<close> is computed in \<open>size_t\<close> before it is stored in the \<open>int\<close>.
\<close>

definition moveSelection :: "FileExplorer \<Rightarrow> int \<Rightarrow> error + FileExplorer" where
  "moveSelection fe delta =
     bind_err (int_add (selectedIndex fe) delta) (\<lambda>i.
       let i' = (if i < 0 then 0 else i);
           i'' = (if length (files fe) \<le> size_t_of_int i'
                  then int_of_size_t (size_t_sub (length (files fe)) 1) else i')
       in Inr (fe\<lparr>selectedIndex := i''\<rparr>))"

definition getSelected :: "FileExplorer \<Rightarrow> string" where
  "getSelected fe =
     (if size_t_of_int (selectedIndex fe) < length (files fe)
      then files fe ! size_t_of_int (selectedIndex fe) else '''')"

section \<open>Editor\<close>

record editor =
  buffers :: "buffer list"
  currentBuffer :: int
  cursorRow :: int
  cursorCol :: int
  rowOffset :: int
  colOffset :: int
  statusMessage :: string
  commandBuffer :: string
  commandMode :: bool
  running :: bool
  highlighter :: "HighlightRule list"
  pluginManager :: PluginManager
  fileExplorer :: FileExplorer
  showExplorer :: bool

definition editor_newline_free :: "editor \<Rightarrow> bool" where
  "editor_newline_free e = (\<forall>b \<in> set (buffers e). newline_free b)"

text \<open>
  \<open>Editor::Editor()\<close>, without the terminal: one default buffer and the three rules,
  whose compiled patterns are parameters.
\<close>

definition Editor_new :: "regex \<Rightarrow> regex \<Rightarrow> regex \<Rightarrow> editor" where
  "Editor_new keywords quoted comment =
     \<lparr>buffers = [Buffer_default], currentBuffer = 0, cursorRow = 0, cursorCol = 0,
      rowOffset = 0, colOffset = 0, statusMessage = '''', commandBuffer = '''',
      commandMode = False, running = True,
      highlighter =
        addRule (addRule (addRule [] keywords (CHR 0x1B # ''[34m'')) quoted (CHR 0x1B # ''[32m''))
          comment (CHR 0x1B # ''[90m''),
      pluginManager = \<lparr>plugins = [], hook_calls = []\<rparr>,
      fileExplorer = \<lparr>files = [], selectedIndex = 0\<rparr>,
      showExplorer = False\<rparr>"

text \<open>\<open>*buffers[currentBuffer]\<close>: an index outside the vector is undefined behaviour.\<close>

definition getCurrentBuffer :: "editor \<Rightarrow> error + buffer" where
  "getCurrentBuffer e =
     (if size_t_of_int (currentBuffer e) < length (buffers e)
      then Inr (buffers e ! size_t_of_int (currentBuffer e))
      else Inl UndefinedBehaviour)"

definition setCurrentBuffer :: "editor \<Rightarrow> buffer \<Rightarrow> editor" where
  "setCurrentBuffer e b = e\<lparr>buffers := (buffers e)[size_t_of_int (currentBuffer e) := b]\<rparr>"

definition Editor_insertChar :: "editor \<Rightarrow> char \<Rightarrow> error + editor" where
  "Editor_insertChar e c =
     bind_err (getCurrentBuffer e) (\<lambda>b.
     bind_err (Buffer_insertChar b (cursorRow e) (cursorCol e) c) (\<lambda>b'.
     bind_err (int_add (cursorCol e) 1) (\<lambda>col.
       Inr ((setCurrentBuffer e b')
              \<lparr>cursorCol := col, pluginManager := notifyBufferChange (pluginManager e)\<rparr>))))"

definition Editor_deleteChar :: "editor \<Rightarrow> error + editor" where
  "Editor_deleteChar e =
     (if 0 < cursorCol e then
        bind_err (getCurrentBuffer e) (\<lambda>b.
        bind_err (Buffer_deleteChar b (cursorRow e) (cursorCol e)) (\<lambda>b'.
        bind_err (int_add (cursorCol e) (- 1)) (\<lambda>col.
          Inr ((setCurrentBuffer e b')
                 \<lparr>cursorCol := col, pluginManager := notifyBufferChange (pluginManager e)\<rparr>))))
      else Inr e)"

text \<open>
  \<open>Editor::newLine\<close>. \<open>Buffer::getLine\<close> returns its string by value, so \<open>line\<close> names
  a copy: \<open>rest\<close> and the shortened \<open>line\<close> are computed (and \<open>substr\<close> may throw) but
  neither reaches the buffer, which only receives \<open>insertLine(cursorRow)\<close>. Nothing in
  the function uses \<open>rest\<close> after it is computed.
\<close>

definition Editor_newLine :: "editor \<Rightarrow> error + editor" where
  "Editor_newLine e =
     bind_err (getCurrentBuffer e) (\<lambda>b.
     let line = Buffer_getLine b (cursorRow e) in
     bind_err (string_substr_from line (size_t_of_int (cursorCol e))) (\<lambda>rest.
     bind_err (string_substr line 0 (size_t_of_int (cursorCol e))) (\<lambda>line'.
     bind_err (Buffer_insertLine b (cursorRow e)) (\<lambda>b'.
     bind_err (int_add (cursorRow e) 1) (\<lambda>row.
       Inr ((setCurrentBuffer e b')
              \<lparr>cursorRow := row, cursorCol := 0,
               pluginManager := notifyBufferChange (pluginManager e)\<rparr>))))))"

definition Editor_quit :: "editor \<Rightarrow> error + editor" where
  "Editor_quit e =
     bind_err (getCurrentBuffer e) (\<lambda>b.
       if modified b
       then Inr (e\<lparr>statusMessage := ''Unsaved changes! Use :q! to force quit''\<rparr>)
       else Inr (e\<lparr>running := False\<rparr>))"

definition Editor_saveFile :: "editor \<Rightarrow> world \<Rightarrow> error + editor \<times> world" where
  "Editor_saveFile e w =
     bind_err (getCurrentBuffer e) (\<lambda>b.
       case Buffer_save w b of
         (b', w') \<Rightarrow> Inr ((setCurrentBuffer e b')\<lparr>statusMessage := ''File saved''\<rparr>, w'))"

definition Editor_openFile :: "editor \<Rightarrow> world \<Rightarrow> string \<Rightarrow> editor" where
  "Editor_openFile e w path =
     e\<lparr>buffers := buffers e @ [Buffer_path w path],
       currentBuffer := int_of_size_t (size_t_sub (length (buffers e @ [Buffer_path w path])) 1),
       cursorRow := 0, cursorCol := 0\<rparr>"

definition Editor_executeCommand :: "editor \<Rightarrow> world \<Rightarrow> string \<Rightarrow> error + editor \<times> world" where
  "Editor_executeCommand e w cmd =
     (if cmd = ''q'' then bind_err (Editor_quit e) (\<lambda>e'. Inr (e', w))
      else if cmd = ''w'' then Editor_saveFile e w
      else if cmd = ''wq'' then
        bind_err (Editor_saveFile e w) (\<lambda>(e', w').
        bind_err (Editor_quit e') (\<lambda>e''. Inr (e'', w')))
      else bind_err (string_substr cmd 0 2) (\<lambda>start.
        if start = ''e '' then
          bind_err (string_substr_from cmd 2) (\<lambda>path. Inr (Editor_openFile e w path, w))
        else if cmd = ''explorer'' then
          Inr (e\<lparr>showExplorer := \<not> showExplorer e,
                 fileExplorer := scanDirectory w (fileExplorer e) ''.''\<rparr>, w)
        else Inr (e\<lparr>statusMessage := ''Unknown command: '' @ cmd\<rparr>, w)))"

text \<open>
  The key read by \<open>Editor::processKeypress\<close> is a \<open>char\<close>, compared and passed on as
  an \<open>int\<close>; \<open>char\<close> is taken as signed, as on the platforms of \<open>termios\<close>.
\<close>

definition int_of_char :: "char \<Rightarrow> int" where
  "int_of_char c = (if of_char c < (128 :: int) then of_char c else of_char c - 256)"

text \<open>
  \<open>Editor::processKeypress\<close>; \<open>key\<close> is what \<open>read\<close> delivered, \<open>None\<close> when it
  returned without a character.
\<close>

definition Editor_processKeypress :: "editor \<Rightarrow> world \<Rightarrow> char option \<Rightarrow> error + editor \<times> world" where
  "Editor_processKeypress e w key =
     (case key of
        None \<Rightarrow> Inr (e, w)
      | Some c \<Rightarrow>
          if commandMode e then
            (if int_of_char c = 13 then
               bind_err (Editor_executeCommand e w (commandBuffer e)) (\<lambda>(e', w').
                 Inr (e'\<lparr>commandMode := False, commandBuffer := ''''\<rparr>, w'))
             else if int_of_char c = 27 then
               Inr (e\<lparr>commandMode := False, commandBuffer := ''''\<rparr>, w)
             else if int_of_char c = 127 then
               Inr (if commandBuffer e \<noteq> [] then e\<lparr>commandBuffer := butlast (commandBuffer e)\<rparr> else e, w)
             else Inr (e\<lparr>commandBuffer := commandBuffer e @ [c]\<rparr>, w))
          else
            (let e1 = e\<lparr>pluginManager := notifyKeyPress (pluginManager e) (int_of_char c)\<rparr> in
             if int_of_char c = 58 then Inr (e1\<lparr>commandMode := True\<rparr>, w)
             else if int_of_char c = 27 then Inr (e1, w)
             else if int_of_char c = 127 then bind_err (Editor_deleteChar e1) (\<lambda>e'. Inr (e', w))
             else if int_of_char c = 13 then bind_err (Editor_newLine e1) (\<lambda>e'. Inr (e', w))
             else if 32 \<le> int_of_char c \<and> int_of_char c \<le> 126
               then bind_err (Editor_insertChar e1 c) (\<lambda>e'. Inr (e', w))
             else Inr (e1, w)))"

subsection \<open>A fresh editor and two small file systems\<close>

text \<open>
  Concrete states for the examples below. In \<open>fresh_editor\<close> three patterns without
  special characters stand for the patterns of the three rules.
\<close>

definition no_files :: world where
  "no_files = \<lparr>file_data = Map.empty, can_write = (\<lambda>p. True), dir_entries = (\<lambda>p. [])\<rparr>"

definition one_empty_file :: world where
  "one_empty_file = no_files\<lparr>file_data := Map.empty(''empty.txt'' \<mapsto> '''')\<rparr>"

definition fresh_editor :: editor where
  "fresh_editor = Editor_new (literal_regex ''int'') (literal_regex ''if'') (literal_regex ''//'')"

section \<open>Properties of the buffer\<close>

subsection \<open>Conversions\<close>

lemma size_t_of_int_nonneg: "0 \<le> i \<Longrightarrow> is_int i \<Longrightarrow> size_t_of_int i = nat i"
  by (simp add: size_t_of_int_def is_int_def INT_MAX_def)

lemma size_t_of_int_neg:
  "i < 0 \<Longrightarrow> is_int i \<Longrightarrow> n \<le> PTRDIFF_MAX \<Longrightarrow> n < size_t_of_int i"
proof -
  assume a: "i < 0" "is_int i" "n \<le> PTRDIFF_MAX"
  have "i mod 18446744073709551616 = (i + 18446744073709551616) mod 18446744073709551616"
    by simp
  also have "\<dots> = i + 18446744073709551616"
    using a(1,2) by (intro mod_pos_pos_trivial) (simp_all add: is_int_def INT_MIN_def)
  finally have "i mod 18446744073709551616 = i + 18446744073709551616" .
  moreover have "int n < i + 18446744073709551616"
    using a by (simp add: is_int_def INT_MIN_def PTRDIFF_MAX_def)
  ultimately show ?thesis
    by (simp add: size_t_of_int_def zless_nat_eq_int_zless)
qed

subsection \<open>Rows and columns out of range\<close>

text \<open>
  Claim C1, as the code has it. \<open>insertChar\<close>, \<open>deleteChar\<close> and \<open>getLine\<close> guard the
  row: with a row that is negative or not below the line count the call returns and
  leaves the buffer as it was (\<open>getLine\<close> returns the empty string), whatever the
  column; \<open>insertLine\<close> does so for a negative row and for a row above the line count;
  \<open>deleteChar\<close> does so for column 0. No operation guards the column: with a row in
  range, \<open>insertChar\<close> at a column that is negative or beyond the end of the line
  throws \<open>std::out_of_range\<close>.
\<close>

theorem out_of_range_row_is_noop:
  assumes "is_int row" and "length (lines b) \<le> PTRDIFF_MAX"
  shows "(row < 0 \<or> int (length (lines b)) \<le> row \<longrightarrow>
            Buffer_insertChar b row col c = Inr b
          \<and> Buffer_deleteChar b row col = Inr b
          \<and> Buffer_getLine b row = '''')
       \<and> (row < 0 \<or> int (length (lines b)) < row \<longrightarrow> Buffer_insertLine b row = Inr b)
       \<and> Buffer_deleteChar b row 0 = Inr b
       \<and> (0 \<le> row \<and> row < int (length (lines b)) \<and> is_int col
            \<and> length (lines b ! nat row) \<le> PTRDIFF_MAX
            \<and> (col < 0 \<or> int (length (lines b ! nat row)) < col) \<longrightarrow>
            Buffer_insertChar b row col c = Inl OutOfRange)"
proof -
  have neg: "row < 0 \<Longrightarrow> length (lines b) < size_t_of_int row"
    using assms by (simp add: size_t_of_int_neg)
  have pos: "0 \<le> row \<Longrightarrow> size_t_of_int row = nat row"
    using assms by (simp add: size_t_of_int_nonneg)
  have ge: "row < 0 \<or> int (length (lines b)) \<le> row \<Longrightarrow> length (lines b) \<le> size_t_of_int row"
    using neg pos by (cases "row < 0") auto
  have gt: "row < 0 \<or> int (length (lines b)) < row \<Longrightarrow> length (lines b) < size_t_of_int row"
    using neg pos by (cases "row < 0") auto
  have 1: "row < 0 \<or> int (length (lines b)) \<le> row \<Longrightarrow>
      Buffer_insertChar b row col c = Inr b \<and> Buffer_deleteChar b row col = Inr b
      \<and> Buffer_getLine b row = ''''"
    using ge by (simp add: Buffer_insertChar_def Buffer_deleteChar_def Buffer_getLine_def)
  have 2: "row < 0 \<or> int (length (lines b)) < row \<Longrightarrow> Buffer_insertLine b row = Inr b"
    using gt by (simp add: Buffer_insertLine_def)
  have 3: "Buffer_deleteChar b row 0 = Inr b"
    by (simp add: Buffer_deleteChar_def)
  have 4: "Buffer_insertChar b row col c = Inl OutOfRange"
    if h: "0 \<le> row" "row < int (length (lines b))" "is_int col"
      "length (lines b ! nat row) \<le> PTRDIFF_MAX"
      "col < 0 \<or> int (length (lines b ! nat row)) < col"
  proof -
    have "length (lines b ! nat row) < size_t_of_int col"
    proof (cases "col < 0")
      case True
      with h show ?thesis by (simp add: size_t_of_int_neg)
    next
      case False
      with h show ?thesis by (simp add: size_t_of_int_nonneg)
    qed
    with h pos show ?thesis
      by (simp add: Buffer_insertChar_def string_insert_def bind_err_def)
  qed
  show ?thesis
    using 1 2 3 4 by blast
qed

text \<open>
  The theorem at a buffer of two lines: row 7 and row \<open>-1\<close> are out of range, row 0
  with column 5 or column \<open>-1\<close> is not.
\<close>

theorem out_of_range_row_is_noop_witness:
  "is_int 7 \<and> is_int (- 1) \<and> is_int 5 \<and> length [''ab'', ''c''] \<le> PTRDIFF_MAX
   \<and> Buffer_insertChar \<lparr>lines = [''ab'', ''c''], filepath = ''f'', modified = False\<rparr> 7 5 CHR ''x''
       = Inr \<lparr>lines = [''ab'', ''c''], filepath = ''f'', modified = False\<rparr>
   \<and> Buffer_deleteChar \<lparr>lines = [''ab'', ''c''], filepath = ''f'', modified = False\<rparr> (- 1) 5
       = Inr \<lparr>lines = [''ab'', ''c''], filepath = ''f'', modified = False\<rparr>
   \<and> Buffer_getLine \<lparr>lines = [''ab'', ''c''], filepath = ''f'', modified = False\<rparr> (- 1) = ''''
   \<and> Buffer_insertLine \<lparr>lines = [''ab'', ''c''], filepath = ''f'', modified = False\<rparr> 7
       = Inr \<lparr>lines = [''ab'', ''c''], filepath = ''f'', modified = False\<rparr>
   \<and> Buffer_insertChar \<lparr>lines = [''ab'', ''c''], filepath = ''f'', modified = False\<rparr> 0 5 CHR ''x''
       = Inl OutOfRange
   \<and> Buffer_insertChar \<lparr>lines = [''ab'', ''c''], filepath = ''f'', modified = False\<rparr> 0 (- 1) CHR ''x''
       = Inl OutOfRange"
  using
    out_of_range_row_is_noop
      [of 7 "\<lparr>lines = [''ab'', ''c''], filepath = ''f'', modified = False\<rparr>" 5 "CHR ''x''"]
    out_of_range_row_is_noop
      [of "- 1" "\<lparr>lines = [''ab'', ''c''], filepath = ''f'', modified = False\<rparr>" 5 "CHR ''x''"]
    out_of_range_row_is_noop
      [of 0 "\<lparr>lines = [''ab'', ''c''], filepath = ''f'', modified = False\<rparr>" 5 "CHR ''x''"]
    out_of_range_row_is_noop
      [of 0 "\<lparr>lines = [''ab'', ''c''], filepath = ''f'', modified = False\<rparr>" "- 1" "CHR ''x''"]
  by (simp add: is_int_def INT_MIN_def INT_MAX_def PTRDIFF_MAX_def)

text \<open>
  The claim as it is written fails on the column: inserting at column 5 of a line of
  two characters is not a silent return.
\<close>

theorem out_of_range_col_counterexample:
  "Buffer_insertChar \<lparr>lines = [''ab''], filepath = ''f'', modified = False\<rparr> 0 5 CHR ''x''
     = Inl OutOfRange"
  by (simp add: Buffer_insertChar_def string_insert_def bind_err_def size_t_of_int_def)

text \<open>
  Two calls the theorem leaves out: \<open>deleteLine\<close> has no guard on the row, and the guard of
  \<open>insertLine\<close> admits the line count itself; each forms an iterator outside the vector.
\<close>

lemma deleteLine_row_unchecked:
  "Buffer_deleteLine \<lparr>lines = [''a'', ''b''], filepath = ''f'', modified = False\<rparr> 7
     = Inl UndefinedBehaviour"
  by (simp add: Buffer_deleteLine_def)

lemma insertLine_row_at_count:
  "Buffer_insertLine \<lparr>lines = [''a'', ''b''], filepath = ''f'', modified = False\<rparr> 2
     = Inl UndefinedBehaviour"
  by (simp add: Buffer_insertLine_def size_t_of_int_def)

subsection \<open>Insert and delete\<close>

text \<open>
  Claim C5. For a row in range and a column from 0 to the length of that line,
  \<open>insertChar(row, col, c)\<close> followed by \<open>deleteChar(row, col + 1)\<close> gives back the
  content of the line, and of every other line.
\<close>

theorem insertChar_deleteChar_restores:
  assumes "0 \<le> row" and "row < int (length (lines b))"
    and "0 \<le> col" and "col \<le> int (length (lines b ! nat row))"
    and "is_int row" and "is_int (col + 1)"
  shows "\<exists>b1 b2. Buffer_insertChar b row col c = Inr b1
           \<and> Buffer_deleteChar b1 row (col + 1) = Inr b2
           \<and> lines b2 = lines b
           \<and> Buffer_getLine b2 row = Buffer_getLine b row"
proof -
  have r: "size_t_of_int row = nat row"
    using assms by (simp add: size_t_of_int_nonneg)
  have ci: "is_int col"
    using assms by (simp add: is_int_def INT_MIN_def INT_MAX_def)
  have c: "size_t_of_int col = nat col"
    using assms ci by (simp add: size_t_of_int_nonneg)
  let ?s = "take (nat col) (lines b ! nat row) @ c # drop (nat col) (lines b ! nat row)"
  let ?b1 = "b\<lparr>lines := (lines b)[nat row := ?s], modified := True\<rparr>"
  have cl: "nat col \<le> length (lines b ! nat row)"
    using assms by simp
  have rl: "nat row < length (lines b)"
    using assms by simp
  have 1: "Buffer_insertChar b row col c = Inr ?b1"
    using rl cl r c by (simp add: Buffer_insertChar_def string_insert_def bind_err_def)
  have e: "string_erase ?s (nat col) 1 = Inr (lines b ! nat row)"
    using cl by (simp add: string_erase_def min_def)
  have 2: "Buffer_deleteChar ?b1 row (col + 1) = Inr (?b1\<lparr>lines := lines b\<rparr>)"
    using assms(3) rl r c ci e
    by (simp add: Buffer_deleteChar_def int_add_def bind_err_def)
  show ?thesis
    using 1 2 by (simp add: Buffer_getLine_def)
qed

theorem insertChar_deleteChar_restores_witness:
  "(0::int) \<le> 1 \<and> (1::int) < int (length [''ab'', ''cd'']) \<and> (1::int) \<le> int (length ''cd'')
   \<and> is_int 1 \<and> is_int (1 + 1)
   \<and> (\<exists>b1 b2.
        Buffer_insertChar \<lparr>lines = [''ab'', ''cd''], filepath = ''f'', modified = False\<rparr> 1 1 CHR ''x'' = Inr b1
      \<and> Buffer_deleteChar b1 1 (1 + 1) = Inr b2
      \<and> lines b2 = [''ab'', ''cd'']
      \<and> Buffer_getLine b2 1 = ''cd'')"
  using insertChar_deleteChar_restores
    [of 1 "\<lparr>lines = [''ab'', ''cd''], filepath = ''f'', modified = False\<rparr>" 1 "CHR ''x''"]
  by (simp add: is_int_def INT_MIN_def INT_MAX_def Buffer_getLine_def size_t_of_int_def)

subsection \<open>The line count\<close>

lemma insertLine_keeps_nonempty:
  "Buffer_insertLine b row = Inr b' \<Longrightarrow> lines b \<noteq> [] \<Longrightarrow> lines b' \<noteq> []"
  by (auto simp: Buffer_insertLine_def split: if_splits)

lemma deleteLine_keeps_nonempty:
  assumes "Buffer_deleteLine b row = Inr b'" and "lines b \<noteq> []"
  shows "lines b' \<noteq> []"
proof (cases "length (lines b) \<le> 1")
  case True
  with assms show ?thesis by (simp add: Buffer_deleteLine_def)
next
  case False
  then have two: "2 \<le> length (lines b)" by simp
  from assms(1) False have in_range: "0 \<le> row" "row < int (length (lines b))"
    and b': "b' = b\<lparr>lines := take (nat row) (lines b) @ drop (Suc (nat row)) (lines b), modified := True\<rparr>"
    by (auto simp: Buffer_deleteLine_def split: if_splits)
  have "length (lines b') = length (lines b) - 1"
    using in_range by (simp add: b' min_def)
  with two show ?thesis by auto
qed

lemma load_nonempty: "lines (Buffer_load w b) \<noteq> []"
  by (simp add: Buffer_load_def Let_def split: option.split)

lemma apply_buffer_op_keeps_nonempty:
  "apply_buffer_op w b x = Inr b' \<Longrightarrow> lines b \<noteq> [] \<Longrightarrow> lines b' \<noteq> []"
  by (cases x) (auto dest: insertLine_keeps_nonempty deleteLine_keeps_nonempty simp: load_nonempty)

lemma run_buffer_ops_keeps_nonempty:
  "run_buffer_ops w b ops = Inr b' \<Longrightarrow> lines b \<noteq> [] \<Longrightarrow> lines b' \<noteq> []"
proof (induction ops arbitrary: b)
  case Nil
  then show ?case by simp
next
  case (Cons x xs)
  from Cons.prems(1) obtain b1 where 1: "apply_buffer_op w b x = Inr b1"
    and 2: "run_buffer_ops w b1 xs = Inr b'"
    by (auto simp: bind_err_def split: sum.splits)
  from 1 Cons.prems(2) have "lines b1 \<noteq> []"
    by (rule apply_buffer_op_keeps_nonempty)
  with 2 show ?case by (rule Cons.IH)
qed

text \<open>Both constructors give a buffer with a line.\<close>

lemma constructors_nonempty:
  "lines Buffer_default \<noteq> []" "lines (Buffer_path w path) \<noteq> []"
  by (simp_all add: Buffer_default_def Buffer_path_def load_nonempty)

text \<open>With a row in range the line operations return, and change the count by one.\<close>

lemma insertLine_in_range:
  assumes "0 \<le> row" and "row < int (length (lines b))" and "is_int row"
  shows "\<exists>b'. Buffer_insertLine b row = Inr b' \<and> length (lines b') = Suc (length (lines b))"
proof -
  have "size_t_of_int row = nat row"
    using assms by (simp add: size_t_of_int_nonneg)
  moreover have "nat row < length (lines b)" and "nat (row + 1) = Suc (nat row)"
    using assms by simp_all
  ultimately show ?thesis
    using assms(1,2) by (auto simp: Buffer_insertLine_def min_def)
qed

lemma deleteLine_in_range:
  assumes "0 \<le> row" and "row < int (length (lines b))" and "2 \<le> length (lines b)"
  shows "\<exists>b'. Buffer_deleteLine b row = Inr b' \<and> Suc (length (lines b')) = length (lines b)"
proof -
  have "nat row < length (lines b)"
    using assms by simp
  then show ?thesis
    using assms by (simp add: Buffer_deleteLine_def min_def)
qed

lemma read_lines_nil: "read_lines [] acc = acc"
  by (subst read_lines.simps) (simp add: getline_def)

text \<open>
  Claim C2. From a buffer that has a line, as both constructors make it, every sequence
  of \<open>insertLine\<close>, \<open>deleteLine\<close> and \<open>load\<close> calls that runs through leaves a buffer
  with at least one line (a sequence is cut short only by a row for which the vector
  operation is undefined). \<open>deleteLine\<close> on a buffer of exactly one line returns the
  buffer as it is, for every row; \<open>load\<close> on a file that is empty or cannot be opened
  leaves exactly one empty line.
\<close>

theorem line_count_never_below_one:
  "(lines b \<noteq> [] \<and> run_buffer_ops w b ops = Inr b' \<longrightarrow> 1 \<le> length (lines b'))
   \<and> (length (lines b) = 1 \<longrightarrow> Buffer_deleteLine b row = Inr b)
   \<and> (file_data w (filepath b) = None \<or> file_data w (filepath b) = Some [] \<longrightarrow>
        lines (Buffer_load w b) = [''''])"
proof -
  have 1: "1 \<le> length (lines b')" if "lines b \<noteq> []" "run_buffer_ops w b ops = Inr b'"
  proof -
    from that(2,1) have "lines b' \<noteq> []" by (rule run_buffer_ops_keeps_nonempty)
    then show ?thesis by (cases "lines b'") auto
  qed
  have 2: "Buffer_deleteLine b row = Inr b" if "length (lines b) = 1"
    using that by (simp add: Buffer_deleteLine_def)
  have 3: "lines (Buffer_load w b) = ['''']"
    if "file_data w (filepath b) = None \<or> file_data w (filepath b) = Some []"
    using that by (auto simp: Buffer_load_def read_lines_nil)
  show ?thesis using 1 2 3 by blast
qed

text \<open>
  The theorem on the default buffer, with a sequence that inserts a line, deletes
  two and loads, and on the loading of an empty and of a missing file.
\<close>

theorem line_count_never_below_one_witness:
  "lines Buffer_default \<noteq> []
   \<and> run_buffer_ops one_empty_file Buffer_default [InsertLine 0, DeleteLine 1, DeleteLine 0, Load]
       = Inr \<lparr>lines = [''''], filepath = '''', modified = True\<rparr>
   \<and> 1 \<le> length (lines \<lparr>lines = [''''], filepath = '''', modified = True\<rparr>)
   \<and> Buffer_deleteLine Buffer_default 0 = Inr Buffer_default
   \<and> lines (Buffer_load one_empty_file
        \<lparr>lines = [''a'', ''b''], filepath = ''empty.txt'', modified = False\<rparr>) = ['''']
   \<and> lines (Buffer_load one_empty_file
        \<lparr>lines = [''a'', ''b''], filepath = ''missing.txt'', modified = False\<rparr>) = ['''']"
  using line_count_never_below_one
    [of Buffer_default one_empty_file "[InsertLine 0, DeleteLine 1, DeleteLine 0, Load]"
        "\<lparr>lines = [''''], filepath = '''', modified = True\<rparr>" 0]
    line_count_never_below_one
    [of "\<lparr>lines = [''a'', ''b''], filepath = ''empty.txt'', modified = False\<rparr>" one_empty_file]
    line_count_never_below_one
    [of "\<lparr>lines = [''a'', ''b''], filepath = ''missing.txt'', modified = False\<rparr>" one_empty_file]
  by (simp add: Buffer_default_def Buffer_insertLine_def Buffer_deleteLine_def Buffer_load_def
      bind_err_def size_t_of_int_def read_lines_nil one_empty_file_def no_files_def)

subsection \<open>Saving and loading\<close>

lemma getline_line:
  assumes "newline \<notin> set line"
  shows "getline (line @ newline # rest) = Some (line, rest)"
proof -
  have "\<And>c. c \<in> set line \<Longrightarrow> c \<noteq> newline"
    using assms by auto
  then have "takeWhile (\<lambda>c. c \<noteq> newline) (line @ newline # rest) = line"
    and "dropWhile (\<lambda>c. c \<noteq> newline) (line @ newline # rest) = newline # rest"
    by (simp_all add: takeWhile_append2 dropWhile_append2)
  then show ?thesis
    by (simp add: getline_def)
qed

lemma read_lines_file_text:
  "\<forall>line \<in> set ls. newline \<notin> set line \<Longrightarrow> read_lines (file_text ls) acc = acc @ ls"
proof (induction ls arbitrary: acc)
  case Nil
  then show ?case by (simp add: file_text_def read_lines_nil)
next
  case (Cons l ls)
  have ft: "file_text (l # ls) = l @ newline # file_text ls"
    by (simp add: file_text_def)
  have "read_lines (file_text (l # ls)) acc = read_lines (file_text ls) (acc @ [l])"
    using Cons.prems by (subst read_lines.simps) (simp add: ft getline_line)
  also have "\<dots> = (acc @ [l]) @ ls"
    using Cons.prems by (intro Cons.IH) simp
  finally show ?case by simp
qed

text \<open>
  Claim C4, as the code has it. For a buffer none of whose lines holds a newline
  character and whose file can be written, \<open>save()\<close> followed by the construction of
  a buffer from the same path gives the same sequence of lines, up to one empty line at
  the end (which appears only for a buffer without any line); the new buffer is
  unmodified, and so is the saved one.
\<close>

theorem save_load_roundtrip:
  assumes "can_write w (filepath b)" and "newline_free b"
  shows "case Buffer_save w b of (b', w') \<Rightarrow>
           (lines (Buffer_path w' (filepath b)) = lines b
            \<or> lines (Buffer_path w' (filepath b)) = lines b @ [''''])
         \<and> (lines b \<noteq> [] \<longrightarrow> lines (Buffer_path w' (filepath b)) = lines b)
         \<and> modified (Buffer_path w' (filepath b)) = False
         \<and> filepath (Buffer_path w' (filepath b)) = filepath b
         \<and> modified b' = False"
proof -
  let ?w' = "w\<lparr>file_data := (file_data w)(filepath b := Some (file_text (lines b)))\<rparr>"
  have s: "Buffer_save w b = (b\<lparr>modified := False\<rparr>, ?w')"
    using assms(1) by (simp add: Buffer_save_def)
  have r: "read_lines (file_text (lines b)) [] = lines b"
    using assms(2) by (simp add: read_lines_file_text newline_free_def)
  have l: "Buffer_path ?w' (filepath b)
      = \<lparr>lines = (if lines b = [] then [''''] else lines b), filepath = filepath b, modified = False\<rparr>"
    by (simp add: Buffer_path_def Buffer_load_def r)
  show ?thesis
    unfolding s by (simp add: l)
qed

text \<open>The theorem on a modified buffer of three lines, the second one empty.\<close>

theorem save_load_roundtrip_witness:
  "can_write no_files ''a.txt''
   \<and> newline_free \<lparr>lines = [''int x;'', '''', ''// end''], filepath = ''a.txt'', modified = True\<rparr>
   \<and> lines (Buffer_path
        (snd (Buffer_save no_files \<lparr>lines = [''int x;'', '''', ''// end''], filepath = ''a.txt'', modified = True\<rparr>))
        ''a.txt'') = [''int x;'', '''', ''// end'']
   \<and> modified (Buffer_path
        (snd (Buffer_save no_files \<lparr>lines = [''int x;'', '''', ''// end''], filepath = ''a.txt'', modified = True\<rparr>))
        ''a.txt'') = False
   \<and> modified
        (fst (Buffer_save no_files \<lparr>lines = [''int x;'', '''', ''// end''], filepath = ''a.txt'', modified = True\<rparr>))
       = False"
  using save_load_roundtrip
    [of no_files "\<lparr>lines = [''int x;'', '''', ''// end''], filepath = ''a.txt'', modified = True\<rparr>"]
  by (simp add: no_files_def newline_def newline_free_def Buffer_save_def)

text \<open>
  The claim as it is written speaks of every buffer. \<open>Buffer::insertChar\<close> takes any
  character: a newline inserted into the line \<open>ab\<close> gives one line that is saved as
  two records and read back as the two lines \<open>a\<close> and \<open>b\<close>.
\<close>

theorem save_load_newline_counterexample:
  "Buffer_insertChar \<lparr>lines = [''ab''], filepath = ''a.txt'', modified = False\<rparr> 0 1 (CHR 0x0A)
     = Inr \<lparr>lines = [[CHR ''a'', CHR 0x0A, CHR ''b'']], filepath = ''a.txt'', modified = True\<rparr>
   \<and> can_write no_files ''a.txt''
   \<and> lines (Buffer_path
        (snd (Buffer_save no_files
          \<lparr>lines = [[CHR ''a'', CHR 0x0A, CHR ''b'']], filepath = ''a.txt'', modified = True\<rparr>))
        ''a.txt'') = [''a'', ''b'']"
  by (simp add: Buffer_insertChar_def string_insert_def bind_err_def size_t_of_int_def
      no_files_def Buffer_save_def Buffer_path_def Buffer_load_def file_text_def newline_def
      read_lines.simps getline_def)

text \<open>What \<open>load\<close> reads never holds a newline, so loaded buffers are of this kind.\<close>

lemma getline_no_newline: "getline s = Some (line, rest) \<Longrightarrow> newline \<notin> set line"
  by (auto simp: getline_def split: if_splits dest: set_takeWhileD)

lemma read_lines_no_newline:
  "\<forall>l \<in> set acc. newline \<notin> set l \<Longrightarrow> \<forall>l \<in> set (read_lines s acc). newline \<notin> set l"
proof (induction s acc rule: read_lines.induct)
  case (1 s acc)
  show ?case
  proof (cases "getline s")
    case None
    with "1.prems" show ?thesis
      by (subst read_lines.simps) simp
  next
    case (Some p)
    obtain line rest where p: "p = (line, rest)"
      by (cases p)
    have "newline \<notin> set line"
      using Some p by (auto dest: getline_no_newline)
    with "1.prems" have "\<forall>l \<in> set (acc @ [line]). newline \<notin> set l"
      by auto
    with Some p have "\<forall>l \<in> set (read_lines rest (acc @ [line])). newline \<notin> set l"
      by (intro "1.IH") auto
    with Some p show ?thesis
      by (subst read_lines.simps) simp
  qed
qed

lemma load_no_newline: "\<forall>l \<in> set (lines (Buffer_load w b)). newline \<notin> set l"
proof (cases "file_data w (filepath b)")
  case None
  then show ?thesis
    by (simp add: Buffer_load_def)
next
  case (Some content)
  have "\<forall>l \<in> set (read_lines content []). newline \<notin> set l"
    by (rule read_lines_no_newline) simp
  with Some show ?thesis
    by (simp add: Buffer_load_def Let_def)
qed

section \<open>Properties of the editor\<close>

lemma size_t_of_int_of_nat: "n \<le> nat INT_MAX \<Longrightarrow> size_t_of_int (int n) = n"
  by (simp add: size_t_of_int_def INT_MAX_def)

lemma int_of_size_t_small: "n \<le> nat INT_MAX \<Longrightarrow> int_of_size_t n = int n"
  by (simp add: int_of_size_t_def INT_MAX_def)

lemma size_t_sub_Suc: "n < 18446744073709551616 \<Longrightarrow> size_t_sub (Suc n) (Suc 0) = n"
  by (simp add: size_t_sub_def)

lemma int_of_char_keys:
  "int_of_char (CHR 0x7F) = 127" "int_of_char (CHR 0x0D) = 13"
  by (simp_all add: int_of_char_def)

subsection \<open>The command \<open>q\<close>\<close>

text \<open>
  Claim C6. With a current buffer that is unmodified, the command \<open>q\<close> sets
  \<open>running\<close> to false. With a modified one it leaves \<open>running\<close> and the buffers as
  they are and sets the status message to the text
  \<open>Unsaved changes! Use :q! to force quit\<close>.
\<close>

theorem quit_command:
  assumes "getCurrentBuffer e = Inr b"
  shows "\<exists>e'. Editor_executeCommand e w ''q'' = Inr (e', w)
           \<and> (\<not> modified b \<longrightarrow> running e' = False)
           \<and> (modified b \<longrightarrow>
                running e' = running e \<and> buffers e' = buffers e
                \<and> statusMessage e' = ''Unsaved changes! Use :q! to force quit'')"
  using assms by (simp add: Editor_executeCommand_def Editor_quit_def bind_err_def)

text \<open>The theorem on the fresh editor, and on the same editor with its buffer modified.\<close>

theorem quit_command_witness:
  "getCurrentBuffer fresh_editor = Inr Buffer_default
   \<and> (\<exists>e'. Editor_executeCommand fresh_editor no_files ''q'' = Inr (e', no_files)
          \<and> running e' = False)
   \<and> getCurrentBuffer (fresh_editor\<lparr>buffers := [Buffer_default\<lparr>modified := True\<rparr>]\<rparr>)
       = Inr (Buffer_default\<lparr>modified := True\<rparr>)
   \<and> (\<exists>e'. Editor_executeCommand (fresh_editor\<lparr>buffers := [Buffer_default\<lparr>modified := True\<rparr>]\<rparr>)
               no_files ''q'' = Inr (e', no_files)
          \<and> running e' = True
          \<and> buffers e' = [Buffer_default\<lparr>modified := True\<rparr>]
          \<and> statusMessage e' = ''Unsaved changes! Use :q! to force quit'')"
  using quit_command [of fresh_editor Buffer_default no_files]
    quit_command [of "fresh_editor\<lparr>buffers := [Buffer_default\<lparr>modified := True\<rparr>]\<rparr>"
      "Buffer_default\<lparr>modified := True\<rparr>" no_files]
  by (simp add: getCurrentBuffer_def fresh_editor_def Editor_new_def Buffer_default_def
      size_t_of_int_def)

subsection \<open>Opening a file that does not exist\<close>

text \<open>
  Claim C8. When the path cannot be opened, the command \<open>e <path>\<close> returns normally
  with a new buffer at the end of the buffer list, which is the current one: a single
  empty line, the given path, unmodified. The status message is left as it was, so
  nothing is reported as an error; the cursor is at the origin.
\<close>

theorem open_nonexistent_file:
  assumes "file_data w path = None" and "length (buffers e) \<le> nat INT_MAX"
  shows "\<exists>e'. Editor_executeCommand e w (''e '' @ path) = Inr (e', w)
           \<and> buffers e' = buffers e @ [\<lparr>lines = [''''], filepath = path, modified = False\<rparr>]
           \<and> getCurrentBuffer e' = Inr \<lparr>lines = [''''], filepath = path, modified = False\<rparr>
           \<and> statusMessage e' = statusMessage e
           \<and> running e' = running e
           \<and> cursorRow e' = 0 \<and> cursorCol e' = 0"
proof -
  let ?b = "\<lparr>lines = [''''], filepath = path, modified = False\<rparr>"
  have p: "Buffer_path w path = ?b"
    using assms(1) by (simp add: Buffer_path_def Buffer_load_def)
  have n: "size_t_sub (Suc (length (buffers e))) (Suc 0) = length (buffers e)"
    using assms(2) by (intro size_t_sub_Suc) (simp add: INT_MAX_def)
  have c: "Editor_executeCommand e w (''e '' @ path) = Inr (Editor_openFile e w path, w)"
    by (simp add: Editor_executeCommand_def string_substr_def string_substr_from_def bind_err_def)
  have i: "size_t_of_int (int_of_size_t (length (buffers e))) = length (buffers e)"
    using assms(2) by (simp add: int_of_size_t_small size_t_of_int_of_nat)
  show ?thesis
    unfolding c by (simp add: Editor_openFile_def p n getCurrentBuffer_def i)
qed

theorem open_nonexistent_file_witness:
  "file_data no_files ''nonexistent.txt'' = None
   \<and> length (buffers fresh_editor) \<le> nat INT_MAX
   \<and> (\<exists>e'. Editor_executeCommand fresh_editor no_files ''e nonexistent.txt'' = Inr (e', no_files)
          \<and> buffers e' = [Buffer_default, \<lparr>lines = [''''], filepath = ''nonexistent.txt'', modified = False\<rparr>]
          \<and> getCurrentBuffer e' = Inr \<lparr>lines = [''''], filepath = ''nonexistent.txt'', modified = False\<rparr>
          \<and> statusMessage e' = ''''
          \<and> running e' = True
          \<and> cursorRow e' = 0 \<and> cursorCol e' = 0)"
  using open_nonexistent_file [of no_files "''nonexistent.txt''" fresh_editor]
  by (simp add: no_files_def fresh_editor_def Editor_new_def INT_MAX_def)

subsection \<open>Backspace at the start of a line\<close>

text \<open>
  Claim C10. In Insert mode with the cursor in column 0, the key \<open>0x7F\<close> leaves the
  buffers and the cursor as they are: the line is not joined with the one before. The
  plugins receive the key press and nothing else, so no buffer change is notified.
\<close>

theorem backspace_at_line_start:
  assumes "commandMode e = False" and "cursorCol e = 0"
  shows "\<exists>e'. Editor_processKeypress e w (Some (CHR 0x7F)) = Inr (e', w)
           \<and> buffers e' = buffers e
           \<and> cursorRow e' = cursorRow e \<and> cursorCol e' = cursorCol e
           \<and> hook_calls (pluginManager e')
               = hook_calls (pluginManager e)
                 @ map (\<lambda>name. (name, OnKeyPress 127)) (plugins (pluginManager e))
           \<and> (\<forall>call \<in> set (drop (length (hook_calls (pluginManager e))) (hook_calls (pluginManager e'))).
                 snd call \<noteq> OnBufferChange)"
  using assms
  by (auto simp: Editor_processKeypress_def int_of_char_keys Editor_deleteChar_def bind_err_def
      notifyKeyPress_def)

text \<open>
  The theorem on an editor with one plugin registered and the cursor at the start of
  the second of two lines, where there is a line before to join with.
\<close>

theorem backspace_at_line_start_witness:
  "commandMode (fresh_editor\<lparr>buffers := [\<lparr>lines = [''ab'', ''cd''], filepath = ''f'', modified = True\<rparr>],
                            cursorRow := 1,
                            pluginManager := \<lparr>plugins = [''logger''], hook_calls = []\<rparr>\<rparr>) = False
   \<and> cursorCol (fresh_editor\<lparr>buffers := [\<lparr>lines = [''ab'', ''cd''], filepath = ''f'', modified = True\<rparr>],
                            cursorRow := 1,
                            pluginManager := \<lparr>plugins = [''logger''], hook_calls = []\<rparr>\<rparr>) = 0
   \<and> (\<exists>e'. Editor_processKeypress
               (fresh_editor\<lparr>buffers := [\<lparr>lines = [''ab'', ''cd''], filepath = ''f'', modified = True\<rparr>],
                              cursorRow := 1,
                              pluginManager := \<lparr>plugins = [''logger''], hook_calls = []\<rparr>\<rparr>)
               no_files (Some (CHR 0x7F)) = Inr (e', no_files)
          \<and> buffers e' = [\<lparr>lines = [''ab'', ''cd''], filepath = ''f'', modified = True\<rparr>]
          \<and> cursorRow e' = 1 \<and> cursorCol e' = 0
          \<and> hook_calls (pluginManager e') = [(''logger'', OnKeyPress 127)])"
  using backspace_at_line_start
    [of "fresh_editor\<lparr>buffers := [\<lparr>lines = [''ab'', ''cd''], filepath = ''f'', modified = True\<rparr>],
                       cursorRow := 1,
                       pluginManager := \<lparr>plugins = [''logger''], hook_calls = []\<rparr>\<rparr>" no_files]
  by (auto simp: fresh_editor_def Editor_new_def)

subsection \<open>The key CR in Insert mode\<close>

text \<open>
  What \<open>Editor::newLine\<close> does for a cursor inside the buffer: the current line keeps
  all of its text, and the line inserted after it is empty.
\<close>

lemma newLine_inserts_empty_line:
  assumes "commandMode e = False" and "getCurrentBuffer e = Inr b"
    and "0 \<le> cursorRow e" and "cursorRow e < int (length (lines b))"
    and "0 \<le> cursorCol e" and "cursorCol e \<le> int (length (lines b ! nat (cursorRow e)))"
    and "is_int (cursorRow e + 1)" and "is_int (cursorCol e)"
  shows "\<exists>e' b'. Editor_processKeypress e w (Some (CHR 0x0D)) = Inr (e', w)
           \<and> getCurrentBuffer e' = Inr b'
           \<and> lines b' = take (Suc (nat (cursorRow e))) (lines b) @ '''' # drop (Suc (nat (cursorRow e))) (lines b)
           \<and> cursorRow e' = cursorRow e + 1 \<and> cursorCol e' = 0"
proof -
  let ?e1 = "e\<lparr>pluginManager := notifyKeyPress (pluginManager e) 13\<rparr>"
  have ri: "is_int (cursorRow e)"
    using assms(3,7) by (simp add: is_int_def INT_MIN_def INT_MAX_def)
  have r: "size_t_of_int (cursorRow e) = nat (cursorRow e)"
    using assms(3) ri by (simp add: size_t_of_int_nonneg)
  have c: "size_t_of_int (cursorCol e) = nat (cursorCol e)"
    using assms(5,8) by (simp add: size_t_of_int_nonneg)
  have rl: "nat (cursorRow e) < length (lines b)"
    using assms(3,4) by simp
  have cl: "nat (cursorCol e) \<le> length (lines b ! nat (cursorRow e))"
    using assms(5,6) by simp
  have "getCurrentBuffer ?e1 = getCurrentBuffer e"
    by (simp add: getCurrentBuffer_def)
  with assms(2) have g: "getCurrentBuffer ?e1 = Inr b"
    by simp
  have cur: "size_t_of_int (currentBuffer e) < length (buffers e)"
    using assms(2) by (auto simp: getCurrentBuffer_def split: if_split_asm)
  have l: "Buffer_getLine b (cursorRow e) = lines b ! nat (cursorRow e)"
    using r rl by (simp add: Buffer_getLine_def)
  have nr: "nat (cursorRow e + 1) = Suc (nat (cursorRow e))"
    using assms(3) by simp
  have i: "Buffer_insertLine b (cursorRow e)
      = Inr (b\<lparr>lines := take (Suc (nat (cursorRow e))) (lines b) @ '''' # drop (Suc (nat (cursorRow e))) (lines b),
               modified := True\<rparr>)"
    using r rl assms(3) nr by (simp add: Buffer_insertLine_def)
  have n: "Editor_newLine ?e1
      = Inr ((setCurrentBuffer ?e1
               (b\<lparr>lines := take (Suc (nat (cursorRow e))) (lines b) @ '''' # drop (Suc (nat (cursorRow e))) (lines b),
                  modified := True\<rparr>))
             \<lparr>cursorRow := cursorRow e + 1, cursorCol := 0,
              pluginManager := notifyBufferChange (pluginManager ?e1)\<rparr>)"
    using g l c cl i assms(7)
    by (simp add: Editor_newLine_def bind_err_def string_substr_from_def string_substr_def
        int_add_def)
  show ?thesis
    using assms(1) n cur
    by (simp add: Editor_processKeypress_def int_of_char_keys bind_err_def
        getCurrentBuffer_def setCurrentBuffer_def)
qed

text \<open>
  Claim C3 says that CR splits the line at the cursor. On the line \<open>hello\<close> with the
  cursor in column 2 the code leaves \<open>hello\<close> whole and adds an empty line below it,
  where the claim has \<open>he\<close> and \<open>llo\<close>; the cursor does move to row 1, column 0.
\<close>

theorem newLine_does_not_split:
  "\<exists>e'. Editor_processKeypress
          (fresh_editor\<lparr>buffers := [\<lparr>lines = [''hello''], filepath = ''f'', modified = True\<rparr>],
                         cursorCol := 2\<rparr>)
          no_files (Some (CHR 0x0D)) = Inr (e', no_files)
       \<and> map lines (buffers e') = [[''hello'', '''']]
       \<and> cursorRow e' = 1 \<and> cursorCol e' = 0"
  by (simp add: Editor_processKeypress_def int_of_char_keys bind_err_def Editor_newLine_def
      getCurrentBuffer_def setCurrentBuffer_def fresh_editor_def Editor_new_def Buffer_getLine_def
      Buffer_insertLine_def string_substr_from_def string_substr_def int_add_def is_int_def
      INT_MIN_def INT_MAX_def size_t_of_int_def)

subsection \<open>Lines stay free of newlines\<close>

text \<open>
  The round trip of saving and loading holds for lines without a newline character.
  The editor starts with such lines and its keys keep them so; only a direct call of
  \<open>Buffer::insertChar\<close> can put a newline into a line.
\<close>

lemma newline_free_default: "newline_free Buffer_default"
  by (simp add: newline_free_def Buffer_default_def)

lemma newline_free_load: "newline_free (Buffer_load w b)"
  using load_no_newline [of w b] by (simp add: newline_free_def)

lemma newline_free_save: "newline_free b \<Longrightarrow> newline_free (fst (Buffer_save w b))"
  by (simp add: newline_free_def Buffer_save_def)

lemma newline_free_update:
  assumes "newline_free b" and "newline \<notin> set s"
  shows "newline_free (b\<lparr>lines := (lines b)[i := s], modified := m\<rparr>)"
proof -
  have "set ((lines b)[i := s]) \<subseteq> insert s (set (lines b))"
    by (rule set_update_subset_insert)
  with assms show ?thesis
    by (auto simp: newline_free_def)
qed

lemma newline_free_insertChar:
  assumes "newline_free b" and "c \<noteq> newline" and "Buffer_insertChar b row col c = Inr b'"
  shows "newline_free b'"
proof (cases "length (lines b) \<le> size_t_of_int row")
  case True
  with assms show ?thesis by (simp add: Buffer_insertChar_def)
next
  case False
  let ?l = "lines b ! size_t_of_int row"
  let ?s = "take (size_t_of_int col) ?l @ c # drop (size_t_of_int col) ?l"
  from False assms(3) have b': "b' = b\<lparr>lines := (lines b)[size_t_of_int row := ?s], modified := True\<rparr>"
    by (auto simp: Buffer_insertChar_def string_insert_def bind_err_def split: if_splits)
  from False assms(1) have "newline \<notin> set ?l"
    by (simp add: newline_free_def)
  then have "newline \<notin> set ?s"
    using assms(2) by (auto dest: in_set_takeD in_set_dropD)
  with assms(1) show ?thesis
    unfolding b' by (rule newline_free_update)
qed

lemma newline_free_deleteChar:
  assumes "newline_free b" and "Buffer_deleteChar b row col = Inr b'"
  shows "newline_free b'"
proof (cases "length (lines b) \<le> size_t_of_int row \<or> col = 0")
  case True
  with assms show ?thesis by (simp add: Buffer_deleteChar_def)
next
  case False
  let ?l = "lines b ! size_t_of_int row"
  let ?p = "size_t_of_int (col + - 1)"
  from False assms(2) have b': "b' = b\<lparr>lines := (lines b)[size_t_of_int row := take ?p ?l @ drop (?p + 1) ?l],
      modified := True\<rparr>"
    by (auto simp: Buffer_deleteChar_def string_erase_def int_add_def bind_err_def split: if_splits)
  from False assms(1) have "newline \<notin> set ?l"
    by (simp add: newline_free_def)
  then have "newline \<notin> set (take ?p ?l @ drop (?p + 1) ?l)"
    by (auto dest: in_set_takeD in_set_dropD)
  with assms(1) show ?thesis
    unfolding b' by (rule newline_free_update)
qed

lemma newline_free_insertLine:
  assumes "newline_free b" and "Buffer_insertLine b row = Inr b'"
  shows "newline_free b'"
  using assms
  by (auto simp: newline_free_def Buffer_insertLine_def split: if_splits
      dest!: in_set_takeD in_set_dropD)

lemma getCurrentBuffer_in_set: "getCurrentBuffer e = Inr b \<Longrightarrow> b \<in> set (buffers e)"
  by (auto simp: getCurrentBuffer_def split: if_splits)

lemma editor_newline_free_set:
  assumes "editor_newline_free e" and "newline_free b"
    and "buffers e' = buffers (setCurrentBuffer e b)"
  shows "editor_newline_free e'"
proof -
  have "set ((buffers e)[size_t_of_int (currentBuffer e) := b]) \<subseteq> insert b (set (buffers e))"
    by (rule set_update_subset_insert)
  with assms show ?thesis
    by (auto simp: editor_newline_free_def setCurrentBuffer_def)
qed

lemma editor_newline_free_same:
  "editor_newline_free e \<Longrightarrow> buffers e' = buffers e \<Longrightarrow> editor_newline_free e'"
  by (simp add: editor_newline_free_def)

lemma newline_free_Editor_insertChar:
  assumes "editor_newline_free e" and "c \<noteq> newline" and "Editor_insertChar e c = Inr e'"
  shows "editor_newline_free e'"
proof -
  from assms(3) obtain b b' where b: "getCurrentBuffer e = Inr b"
    and b': "Buffer_insertChar b (cursorRow e) (cursorCol e) c = Inr b'"
    and e': "buffers e' = buffers (setCurrentBuffer e b')"
    by (auto simp: Editor_insertChar_def bind_err_def split: sum.splits)
  from assms(1) b have "newline_free b"
    by (auto simp: editor_newline_free_def dest: getCurrentBuffer_in_set)
  then have "newline_free b'"
    using assms(2) b' by (rule newline_free_insertChar)
  with assms(1) show ?thesis
    using e' by (rule editor_newline_free_set)
qed

lemma newline_free_Editor_deleteChar:
  assumes "editor_newline_free e" and "Editor_deleteChar e = Inr e'"
  shows "editor_newline_free e'"
proof (cases "0 < cursorCol e")
  case False
  with assms show ?thesis by (simp add: Editor_deleteChar_def)
next
  case True
  with assms(2) obtain b b' where b: "getCurrentBuffer e = Inr b"
    and b': "Buffer_deleteChar b (cursorRow e) (cursorCol e) = Inr b'"
    and e': "buffers e' = buffers (setCurrentBuffer e b')"
    by (auto simp: Editor_deleteChar_def bind_err_def split: sum.splits)
  from assms(1) b have "newline_free b"
    by (auto simp: editor_newline_free_def dest: getCurrentBuffer_in_set)
  then have "newline_free b'"
    using b' by (rule newline_free_deleteChar)
  with assms(1) show ?thesis
    using e' by (rule editor_newline_free_set)
qed

lemma newline_free_Editor_newLine:
  assumes "editor_newline_free e" and "Editor_newLine e = Inr e'"
  shows "editor_newline_free e'"
proof -
  from assms(2) obtain b b' where b: "getCurrentBuffer e = Inr b"
    and b': "Buffer_insertLine b (cursorRow e) = Inr b'"
    and e': "buffers e' = buffers (setCurrentBuffer e b')"
    by (auto simp: Editor_newLine_def bind_err_def Let_def split: sum.splits)
  from assms(1) b have "newline_free b"
    by (auto simp: editor_newline_free_def dest: getCurrentBuffer_in_set)
  then have "newline_free b'"
    using b' by (rule newline_free_insertLine)
  with assms(1) show ?thesis
    using e' by (rule editor_newline_free_set)
qed

lemma newline_free_Editor_quit:
  "editor_newline_free e \<Longrightarrow> Editor_quit e = Inr e' \<Longrightarrow> editor_newline_free e'"
  by (auto simp: Editor_quit_def bind_err_def editor_newline_free_def split: sum.splits if_splits)

lemma newline_free_Editor_saveFile:
  assumes "editor_newline_free e" and "Editor_saveFile e w = Inr (e', w')"
  shows "editor_newline_free e'"
proof -
  from assms(2) obtain b where b: "getCurrentBuffer e = Inr b"
    and e': "buffers e' = buffers (setCurrentBuffer e (fst (Buffer_save w b)))"
    by (auto simp: Editor_saveFile_def bind_err_def setCurrentBuffer_def split: sum.splits prod.splits)
  from assms(1) b have "newline_free b"
    by (auto simp: editor_newline_free_def dest: getCurrentBuffer_in_set)
  then have "newline_free (fst (Buffer_save w b))"
    by (rule newline_free_save)
  with assms(1) show ?thesis
    using e' by (rule editor_newline_free_set)
qed

lemma newline_free_Editor_openFile:
  "editor_newline_free e \<Longrightarrow> editor_newline_free (Editor_openFile e w path)"
  by (simp add: editor_newline_free_def Editor_openFile_def Buffer_path_def newline_free_load)

lemma newline_free_Editor_executeCommand:
  assumes "editor_newline_free e" and "Editor_executeCommand e w cmd = Inr (e', w')"
  shows "editor_newline_free e'"
proof -
  consider (q) "cmd = ''q''" | (w) "cmd = ''w''" | (wq) "cmd = ''wq''"
    | (other) "cmd \<noteq> ''q''" "cmd \<noteq> ''w''" "cmd \<noteq> ''wq''"
    by blast
  then show ?thesis
  proof cases
    case q
    with assms show ?thesis
      by (auto simp: Editor_executeCommand_def bind_err_def split: sum.splits
          dest: newline_free_Editor_quit)
  next
    case w
    with assms show ?thesis
      by (auto simp: Editor_executeCommand_def dest: newline_free_Editor_saveFile)
  next
    case wq
    with assms(2) obtain e1 where 1: "Editor_saveFile e w = Inr (e1, w')"
      and 2: "Editor_quit e1 = Inr e'"
      by (auto simp: Editor_executeCommand_def bind_err_def split: sum.splits)
    from assms(1) 1 have "editor_newline_free e1"
      by (rule newline_free_Editor_saveFile)
    then show ?thesis
      using 2 by (rule newline_free_Editor_quit)
  next
    case other
    with assms(2) have "e' = Editor_openFile e w (drop 2 cmd) \<or> buffers e' = buffers e"
      by (auto simp: Editor_executeCommand_def bind_err_def string_substr_def
          string_substr_from_def split: sum.splits if_splits)
    with assms(1) show ?thesis
      by (auto simp: newline_free_Editor_openFile dest: editor_newline_free_same)
  qed
qed

lemma printable_not_newline:
  "32 \<le> int_of_char c \<Longrightarrow> c \<noteq> newline"
  by (auto simp: int_of_char_def newline_def)

text \<open>
  Every key leaves the buffers of the editor free of newline characters: only the keys
  from 32 to 126 are inserted, and loading splits at the newlines.
\<close>

lemma processKeypress_keeps_newline_free:
  assumes "editor_newline_free e" and "Editor_processKeypress e w key = Inr (e', w')"
  shows "editor_newline_free e'"
proof (cases key)
  case None
  with assms show ?thesis by (simp add: Editor_processKeypress_def)
next
  case (Some c)
  show ?thesis
  proof (cases "commandMode e")
    case True
    show ?thesis
    proof (cases "int_of_char c = 13")
      case True
      with \<open>commandMode e\<close> Some assms(2) obtain e1
        where 1: "Editor_executeCommand e w (commandBuffer e) = Inr (e1, w')"
          and 2: "buffers e' = buffers e1"
        by (auto simp: Editor_processKeypress_def bind_err_def split: sum.splits prod.splits)
      from assms(1) 1 have "editor_newline_free e1"
        by (rule newline_free_Editor_executeCommand)
      then show ?thesis
        using 2 by (rule editor_newline_free_same)
    next
      case False
      with \<open>commandMode e\<close> Some assms(2) have "buffers e' = buffers e"
        by (auto simp: Editor_processKeypress_def split: if_splits)
      with assms(1) show ?thesis
        by (rule editor_newline_free_same)
    qed
  next
    case False
    let ?e1 = "e\<lparr>pluginManager := notifyKeyPress (pluginManager e) (int_of_char c)\<rparr>"
    have e1: "editor_newline_free ?e1"
      using assms(1) by (simp add: editor_newline_free_def)
    from False Some assms(2) consider
      (same) "buffers e' = buffers ?e1"
      | (del) "Editor_deleteChar ?e1 = Inr e'"
      | (nl) "Editor_newLine ?e1 = Inr e'"
      | (ins) "32 \<le> int_of_char c" "Editor_insertChar ?e1 c = Inr e'"
      by (auto simp: Editor_processKeypress_def Let_def bind_err_def split: if_splits sum.splits)
    then show ?thesis
    proof cases
      case same
      with e1 show ?thesis by (rule editor_newline_free_same)
    next
      case del
      with e1 show ?thesis by (rule newline_free_Editor_deleteChar)
    next
      case nl
      with e1 show ?thesis by (rule newline_free_Editor_newLine)
    next
      case ins
      from ins(1) have "c \<noteq> newline" by (rule printable_not_newline)
      with e1 show ?thesis using ins(2) by (rule newline_free_Editor_insertChar)
    qed
  qed
qed

lemma fresh_editor_newline_free: "editor_newline_free (Editor_new keywords quoted comment)"
  by (simp add: editor_newline_free_def Editor_new_def newline_free_default)

section \<open>Properties of the file explorer\<close>

text \<open>
  Claim C9, as the code has it. When \<open>selectedIndex + delta\<close> is an \<open>int\<close>,
  \<open>moveSelection(delta)\<close> returns and keeps the listing; with at least one entry the
  index ends between 0 and the count minus one; with no entry it ends as \<open>-1\<close>.
\<close>

theorem moveSelection_in_range:
  assumes "is_int (selectedIndex fe + delta)"
  shows "\<exists>fe'. moveSelection fe delta = Inr fe'
           \<and> files fe' = files fe
           \<and> (files fe \<noteq> [] \<longrightarrow>
                0 \<le> selectedIndex fe' \<and> selectedIndex fe' \<le> int (length (files fe)) - 1)
           \<and> (files fe = [] \<longrightarrow> selectedIndex fe' = - 1)"
proof -
  define i where "i = selectedIndex fe + delta"
  define i' where "i' = (if i < 0 then 0 else i)"
  define n where "n = length (files fe)"
  have i'0: "0 \<le> i'" and i'i: "is_int i'"
    using assms by (auto simp: i'_def i_def is_int_def INT_MIN_def INT_MAX_def)
  have s: "size_t_of_int i' = nat i'"
    using i'0 i'i by (rule size_t_of_int_nonneg)
  have m: "moveSelection fe delta
      = Inr (fe\<lparr>selectedIndex := (if n \<le> nat i' then int_of_size_t (size_t_sub n 1) else i')\<rparr>)"
    using assms
    by (simp add: moveSelection_def int_add_def bind_err_def Let_def i'_def i_def n_def
        s [unfolded i'_def i_def])
  have big: "int_of_size_t (size_t_sub n 1) = int n - 1" if "n \<le> nat i'"
  proof -
    have "int n \<le> INT_MAX"
      using that i'i i'0 by (simp add: is_int_def le_nat_iff)
    then show ?thesis
      by (cases "n = 0") (simp_all add: size_t_sub_def int_of_size_t_def INT_MAX_def)
  qed
  show ?thesis
    unfolding m using big i'0 by (auto simp: n_def)
qed

text \<open>The theorem on a listing of three entries, moved up and down, and on an empty one.\<close>

theorem moveSelection_in_range_witness:
  "is_int (1 + 5) \<and> is_int (1 + - 7) \<and> is_int (0 + 1)
   \<and> moveSelection \<lparr>files = [''a'', ''b'', ''c''], selectedIndex = 1\<rparr> 5
       = Inr \<lparr>files = [''a'', ''b'', ''c''], selectedIndex = 2\<rparr>
   \<and> moveSelection \<lparr>files = [''a'', ''b'', ''c''], selectedIndex = 1\<rparr> (- 7)
       = Inr \<lparr>files = [''a'', ''b'', ''c''], selectedIndex = 0\<rparr>
   \<and> (\<exists>fe'. moveSelection \<lparr>files = [''a'', ''b'', ''c''], selectedIndex = 1\<rparr> 5 = Inr fe'
          \<and> 0 \<le> selectedIndex fe' \<and> selectedIndex fe' \<le> 2)
   \<and> (\<exists>fe'. moveSelection \<lparr>files = [], selectedIndex = 0\<rparr> 1 = Inr fe'
          \<and> selectedIndex fe' = - 1)"
  using moveSelection_in_range [of "\<lparr>files = [''a'', ''b'', ''c''], selectedIndex = 1\<rparr>" 5]
    moveSelection_in_range [of "\<lparr>files = [], selectedIndex = 0\<rparr>" 1]
  by (auto simp: moveSelection_def int_add_def is_int_def INT_MIN_def INT_MAX_def bind_err_def
      size_t_of_int_def size_t_sub_def int_of_size_t_def)

text \<open>
  The claim as it is written asks for an index from 0 to the count minus one in every
  state. With an empty listing there is no such index, and the code stores \<open>-1\<close>.
\<close>

theorem moveSelection_empty_counterexample:
  "moveSelection \<lparr>files = [], selectedIndex = 0\<rparr> 1 = Inr \<lparr>files = [], selectedIndex = - 1\<rparr>"
  by (simp add: moveSelection_def int_add_def is_int_def INT_MIN_def INT_MAX_def bind_err_def
      size_t_of_int_def size_t_sub_def int_of_size_t_def)

section \<open>Properties of the highlighter\<close>

lemma spec_pass_no_match:
  "pattern rule s = None \<Longrightarrow> spec_pass rule s = s"
  by (simp add: spec_pass_def spec_scan.simps [of "pattern rule" s])

lemma spec_pass_match:
  assumes "pattern rule s = Some (pos, len)" and "0 < len" and "pos + len \<le> length s"
  shows "spec_pass rule s
    = take pos s @ color rule @ take len (drop pos s) @ reset_escape
      @ spec_pass rule (drop (pos + len) s)"
  using assms by (simp add: spec_pass_def spec_scan.simps [of "pattern rule" s])

text \<open>The loop of one rule ends and computes the pass, by induction on the text left.\<close>

lemma highlight_loop_spec_pass:
  assumes "nonempty_matches (pattern rule)"
  shows "highlight_loop rule rest result = Some (result @ spec_pass rule rest)"
proof (induction "length rest" arbitrary: rest result rule: less_induct)
  case less
  show ?case
  proof (cases "pattern rule rest")
    case None
    then show ?thesis
      by (subst highlight_loop.simps) (simp add: spec_pass_no_match)
  next
    case (Some m)
    obtain pos len where m: "m = (pos, len)"
      by (cases m)
    from assms Some m have len: "0 < len" and fit: "pos + len \<le> length rest"
      by (auto simp: nonempty_matches_def)
    then have "length (drop (pos + len) rest) < length rest"
      by simp
    then have "highlight_loop rule (drop (pos + len) rest)
          (result @ take pos rest @ color rule @ take len (drop pos rest) @ reset_escape)
        = Some ((result @ take pos rest @ color rule @ take len (drop pos rest) @ reset_escape)
            @ spec_pass rule (drop (pos + len) rest))"
      by (rule less)
    with Some m len fit show ?thesis
      by (subst highlight_loop.simps) (simp add: spec_pass_match)
  qed
qed

lemma highlight_rules_fold:
  "\<forall>rule \<in> set rules. nonempty_matches (pattern rule) \<Longrightarrow>
   highlight_rules rules s = Some (fold spec_pass rules s)"
proof (induction rules arbitrary: s)
  case Nil
  then show ?case by simp
next
  case (Cons rule rules)
  then have "highlight_loop rule s [] = Some (spec_pass rule s)"
    by (simp add: highlight_loop_spec_pass)
  with Cons show ?case by simp
qed

text \<open>Patterns without special characters: a text that is not empty never matches empty.\<close>

lemma find_literal_bound:
  "find_literal lit s = Some pos \<Longrightarrow> pos + length lit \<le> length s"
proof (induction s arbitrary: pos)
  case Nil
  then show ?case by (simp split: if_splits)
next
  case (Cons c s)
  show ?case
  proof (cases "take (length lit) (c # s) = lit")
    case True
    then have "length (take (length lit) (c # s)) = length lit"
      by simp
    then have "length lit \<le> length (c # s)"
      by (simp del: take_Suc_Cons)
    with True Cons.prems show ?thesis by simp
  next
    case False
    with Cons.prems obtain p where "find_literal lit s = Some p" and "pos = Suc p"
      by auto
    with Cons.IH show ?thesis by fastforce
  qed
qed

lemma literal_regex_nonempty: "lit \<noteq> [] \<Longrightarrow> nonempty_matches (literal_regex lit)"
  by (auto simp: nonempty_matches_def literal_regex_def dest: find_literal_bound)

lemma literal_regex_empty: "literal_regex '''' s = Some (0, 0)"
  by (cases s) (simp_all add: literal_regex_def)

text \<open>
  Claim C7, as the code has it. For rules whose patterns never match the empty string,
  \<open>highlight\<close> returns, and its result is the fold over the rules, in registration
  order, of the pass that wraps the matches found from left to right and keeps the
  spans between them; each pass works on the result of the pass before.
\<close>

theorem highlight_is_fold:
  assumes "\<forall>rule \<in> set rules. nonempty_matches (pattern rule)"
  shows "highlight rules line = Some (spec_highlight rules line)"
  using assms by (simp add: highlight_def spec_highlight_def highlight_rules_fold)

text \<open>
  The theorem on two rules, the second of which matches the colour the first one has
  inserted.
\<close>

theorem highlight_is_fold_witness:
  "nonempty_matches (literal_regex ''if'') \<and> nonempty_matches (literal_regex ''<'')
   \<and> highlight [\<lparr>pattern = literal_regex ''if'', color = ''<''\<rparr>,
                 \<lparr>pattern = literal_regex ''<'', color = ''{''\<rparr>] ''if (x) if''
       = Some (''{<'' @ reset_escape @ ''if'' @ reset_escape @ '' (x) {<'' @ reset_escape
               @ ''if'' @ reset_escape)"
  using highlight_is_fold
    [of "[\<lparr>pattern = literal_regex ''if'', color = ''<''\<rparr>,
          \<lparr>pattern = literal_regex ''<'', color = ''{''\<rparr>]" "''if (x) if''"]
  by (simp add: literal_regex_nonempty spec_highlight_def spec_pass_def spec_scan.simps
      literal_regex_def reset_escape_def)

text \<open>
  With a pattern that matches the empty string the search start never moves: whenever
  the loop returns, some search has not been the empty match at the start.
\<close>

lemma highlight_loop_returns:
  assumes "highlight_loop rule rest result = Some y"
  shows "\<exists>s. pattern rule s \<noteq> Some (0, 0)"
proof (rule highlight_loop.raw_induct
    [where P = "\<lambda>rule rest result y. \<exists>s. pattern rule s \<noteq> Some (0, 0)", OF _ assms])
  fix loop :: "HighlightRule \<Rightarrow> string \<Rightarrow> string \<Rightarrow> string option"
    and rule rest result y
  assume IH: "\<And>rule rest result y. loop rule rest result = Some y
      \<Longrightarrow> \<exists>s. pattern rule s \<noteq> Some (0, 0)"
    and step: "(case pattern rule rest of
        None \<Rightarrow> Some (result @ rest)
      | Some (pos, len) \<Rightarrow>
          loop rule (drop (pos + len) rest)
            (result @ take pos rest @ color rule @ take len (drop pos rest) @ reset_escape))
      = Some y"
  show "\<exists>s. pattern rule s \<noteq> Some (0, 0)"
  proof (rule ccontr)
    assume "\<not> (\<exists>s. pattern rule s \<noteq> Some (0, 0))"
    then have always: "\<And>s. pattern rule s = Some (0, 0)"
      by simp
    with step have "loop rule rest (result @ color rule @ reset_escape) = Some y"
      by simp
    then have "\<exists>s. pattern rule s \<noteq> Some (0, 0)"
      by (rule IH)
    with always show False by simp
  qed
qed

lemma highlight_loop_diverges:
  assumes "\<And>s. pattern rule s = Some (0, 0)"
  shows "highlight_loop rule rest result = None"
proof (cases "highlight_loop rule rest result")
  case None
  then show ?thesis .
next
  case (Some y)
  then have "\<exists>s. pattern rule s \<noteq> Some (0, 0)"
    by (rule highlight_loop_returns)
  with assms show ?thesis by simp
qed

text \<open>
  The claim as it is written speaks of every list of rules. With the empty pattern as
  the only rule, \<open>highlight\<close> does not return on the line \<open>a\<close>.
\<close>

theorem highlight_empty_match_counterexample:
  "highlight [\<lparr>pattern = literal_regex '''', color = ''<''\<rparr>] ''a'' = None"
  by (simp add: highlight_def highlight_loop_diverges literal_regex_empty)

end
